theory Spec2Isabelle
  imports
    Main
    "HOL-Library.Char_ord"
    "HOL-Library.List_Lexorder"
    "HOL-Library.Product_Lexorder"
begin

section \<open>CAISO historical LMP retrieval (isodata/caiso.py)\<close>

text \<open>
  The development embeds \<^verbatim>\<open>CAISO.get_historical_lmp\<close> (caiso.py, lines 173-277).
  The method talks to the network, sleeps and prints; the model threads an event trace
  through the computation and takes the server as a parameter. The method leans on pandas
  for the reshape; the pandas operations it calls are modelled one by one on data frames
  kept as lists of labelled columns, so that duplicate labels, missing labels and missing
  values behave as they do in the library.
\<close>

subsection \<open>Markets, errors, events\<close>

text \<open>
  Modelled from the spec: the enumeration \<^verbatim>\<open>Markets\<close> of \<^verbatim>\<open>isodata.base\<close>
  is not among the sources. The spec names the three variants the method compares against;
  every other value a caller may pass is \<open>Other_market\<close>.
\<close>

datatype market =
    DAY_AHEAD_HOURLY
  | REAL_TIME_15_MIN
  | REAL_TIME_HOURLY
  | Other_market string

datatype error =
    RuntimeError string
  | ConnectionError
  | UnboundLocalError
  | BadZipFile
  | IndexError
  | ValueError string
  | KeyError string
  | TypeError string
  | OutOfBoundsDatetime

datatype event = Get string | Print string | Sleep int

definition trading_hubs_nodes :: "string list" where
  "trading_hubs_nodes = [''TH_NP15_GEN-APND'', ''TH_SP15_GEN-APND'', ''TH_ZP26_GEN-APND'']"

definition default_timezone :: string where
  "default_timezone = ''US/Pacific''"

subsection \<open>Strings: \<^verbatim>\<open>str.join\<close>, decimal numerals\<close>

fun join :: "string \<Rightarrow> string list \<Rightarrow> string" where
  "join sep [] = []"
| "join sep [x] = x"
| "join sep (x # y # ys) = x @ sep @ join sep (y # ys)"

definition digit :: "nat \<Rightarrow> char" where
  "digit n = ''0123456789'' ! (n mod 10)"

fun str_nat :: "nat \<Rightarrow> string" where
  "str_nat n = (if n < 10 then [digit n] else str_nat (n div 10) @ [digit n])"

declare str_nat.simps [simp del]

definition zfill :: "nat \<Rightarrow> string \<Rightarrow> string" where
  "zfill w s = replicate (w - length s) (CHR ''0'') @ s"

subsection \<open>Timestamps\<close>

text \<open>
  A timestamp is kept as its instant: the number of whole seconds since
  1970-01-01T00:00 UTC. \<^verbatim>\<open>tz_convert\<close> changes the zone a timestamp is shown in and
  leaves the instant alone. A pandas timestamp counts nanoseconds in 64 bits: the instants
  it can hold run from 1677-09-21T00:12:44 to 2262-04-11T23:47:16 UTC.
\<close>

definition tz_convert :: "int \<Rightarrow> string \<Rightarrow> int" where
  "tz_convert t zone = t"

definition Timestamp_min :: int where
  "Timestamp_min = - 9223372036"

definition Timestamp_max :: int where
  "Timestamp_max = 9223372036"

text \<open>
  On a timestamp in UTC the wall clock is the instant itself, so adding
  \<^verbatim>\<open>pd.DateOffset(n)\<close> there moves the instant by \<open>n\<close> times 86400 seconds. The sum
  raises \<^verbatim>\<open>OutOfBoundsDatetime\<close> when it is no instant a timestamp can hold.
\<close>

definition DateOffset_utc :: "int \<Rightarrow> int \<Rightarrow> error + int" where
  "DateOffset_utc t n =
     (let t' = t + n * 86400 in
      if Timestamp_min \<le> t' \<and> t' \<le> Timestamp_max then Inr t' else Inl OutOfBoundsDatetime)"

text \<open>Lines 197-198: the start is converted to UTC, then one day is added.\<close>

definition query_window :: "int \<Rightarrow> error + int \<times> int" where
  "query_window start =
     (let start = tz_convert start ''UTC'' in
      case DateOffset_utc start 1 of
        Inl e \<Rightarrow> Inl e
      | Inr end_t \<Rightarrow> Inr (start, end_t))"

text \<open>Calendar fields of a day number (days since 1970-01-01), proleptic Gregorian.\<close>

definition civil_from_days :: "int \<Rightarrow> int \<times> int \<times> int" where
  "civil_from_days days =
     (let z = days + 719468;
          era = z div 146097;
          doe = z - era * 146097;
          yoe = (doe - doe div 1460 + doe div 36524 - doe div 146096) div 365;
          y = yoe + era * 400;
          doy = doe - (365 * yoe + yoe div 4 - yoe div 100);
          mp = (5 * doy + 2) div 153;
          d = doy - (153 * mp + 2) div 5 + 1;
          m = (if mp < 10 then mp + 3 else mp - 9)
      in (if m \<le> 2 then y + 1 else y, m, d))"

text \<open>\<^verbatim>\<open>strftime("%Y%m%dT%H:%M-0000")\<close> of a timestamp in UTC.\<close>

definition strftime :: "int \<Rightarrow> string" where
  "strftime t =
     (case civil_from_days (t div 86400) of (y, m, d) \<Rightarrow>
        zfill 4 (str_nat (nat y)) @ zfill 2 (str_nat (nat m)) @ zfill 2 (str_nat (nat d))
        @ ''T'' @ zfill 2 (str_nat (nat ((t mod 86400) div 3600)))
        @ '':'' @ zfill 2 (str_nat (nat ((t mod 3600) div 60)))
        @ ''-0000'')"

subsection \<open>The query: market parameters and URL (lines 203-221)\<close>

fun market_query :: "market \<Rightarrow> error + (string \<times> string \<times> nat \<times> string)" where
  "market_query DAY_AHEAD_HOURLY = Inr (''PRC_LMP'', ''DAM'', 12, ''MW'')"
| "market_query REAL_TIME_15_MIN = Inr (''PRC_RTPD_LMP'', ''RTPD'', 3, ''PRC'')"
| "market_query REAL_TIME_HOURLY = Inr (''PRC_HASP_LMP'', ''HASP'', 3, ''MW'')"
| "market_query (Other_market m) = Inl (RuntimeError ''LMP Market is not supported'')"

definition query_url ::
  "string \<Rightarrow> nat \<Rightarrow> string \<Rightarrow> string \<Rightarrow> string \<Rightarrow> string \<Rightarrow> string" where
  "query_url query_name version start end_t market_run_id nodes_str =
     ''http://oasis.caiso.com/oasisapi/SingleZip?resultformat=6&queryname='' @ query_name
     @ ''&version='' @ str_nat version
     @ ''&startdatetime='' @ start
     @ ''&enddatetime='' @ end_t
     @ ''&market_run_id='' @ market_run_id
     @ ''&node='' @ nodes_str"

subsection \<open>The server and the retry loop (lines 223-233)\<close>

text \<open>
  What comes back from the bulk endpoint. The archive is kept after decoding: either the
  bytes are no ZIP archive, or they hold a list of members, each a CSV file given by its
  header and its lines. A line keeps the cells the method can read; an empty cell is
  \<open>None\<close> (pandas reads it as NaN). Times and component types are text. A column that
  pandas reads has one type for all its values: \<open>'n\<close> is the type of the node column
  (text, or numbers when every node is written as a number) and \<open>'v\<close> the type of the
  price column; a price cell holds the value it reads as in a column free of empty cells.
\<close>

record ('n, 'v) csv_line =
  INTERVALSTARTTIME_GMT :: "string option"
  NODE :: "'n option"
  LMP_TYPE :: "string option"
  MW :: "'v option"
  PRC :: "'v option"

record ('n, 'v) csv_file =
  header :: "string list"
  body :: "('n, 'v) csv_line list"

datatype ('n, 'v) payload = Not_a_zip | Zip "('n, 'v) csv_file list"

record ('n, 'v) response =
  status_code :: int
  content :: "('n, 'v) payload"

datatype ('n, 'v) outcome = Network_failure | Response "('n, 'v) response"

text \<open>
  \<^verbatim>\<open>requests.get\<close> is a parameter: \<open>requests_get url k\<close> is the outcome of the GET
  issued after \<open>k\<close> earlier GETs of this call. Inside the loop the number of earlier GETs
  is \<open>retry_num\<close>, since every pass that does not leave the loop adds one to it.
  The last response is carried in \<open>r\<close>, unbound before the first pass.
\<close>

function retry_loop ::
  "(string \<Rightarrow> nat \<Rightarrow> ('n, 'v) outcome) \<Rightarrow> string \<Rightarrow> nat \<Rightarrow> ('n, 'v) response option
     \<Rightarrow> event list \<Rightarrow> (error + ('n, 'v) response) \<times> event list" where
  "retry_loop requests_get url retry_num r tr =
     (if retry_num < 3 then
        (case requests_get url retry_num of
           Network_failure \<Rightarrow> (Inl ConnectionError, tr @ [Get url])
         | Response r' \<Rightarrow>
             if status_code r' = 200 then (Inr r', tr @ [Get url])
             else retry_loop requests_get url (retry_num + 1) (Some r')
                    (tr @ [Get url,
                           Print (''Failed to get data from CAISO. Error: ''
                                  @ (if status_code r' < 0 then ''-'' else '''')
                                  @ str_nat (nat \<bar>status_code r'\<bar>)),
                           Print (''Retrying '' @ str_nat (retry_num + 1) @ ''...''),
                           Sleep 5]))
      else (case r of None \<Rightarrow> (Inl UnboundLocalError, tr) | Some r' \<Rightarrow> (Inr r', tr)))"
  by pat_completeness auto
termination
  by (relation "measure (\<lambda>(g, u, n, r, tr). 3 - n)") auto

declare retry_loop.simps [simp del]

subsection \<open>Column types\<close>

text \<open>
  A column that must hold a missing value changes its type when its type has none:
  pandas turns an int64 column into a float64 column, and leaves float64 and text columns
  as they are. The conversion of a value of the price column is the parameter \<open>promote\<close>
  of the model. For an int64 column it is \<open>float64_of_int64\<close>: the nearest number with a
  53-bit significand, ties to the even one; the float is written as the integer it equals.
\<close>

function bit_length :: "int \<Rightarrow> nat" where
  "bit_length a = (if a \<le> 0 then 0 else Suc (bit_length (a div 2)))"
  by pat_completeness auto
termination
  by (relation "measure nat") auto

declare bit_length.simps [simp del]

definition float64_of_int64 :: "int \<Rightarrow> int" where
  "float64_of_int64 n =
     (let a = \<bar>n\<bar>;
          e = bit_length a - 53
      in if e = 0 then n
         else (let q = a div 2 ^ e;
                   r = a mod 2 ^ e;
                   half = 2 ^ (e - 1);
                   q' = (if half < r \<or> (r = half \<and> odd q) then q + 1 else q)
               in sgn n * (q' * 2 ^ e)))"

subsection \<open>Unpacking (lines 235-245)\<close>

text \<open>
  \<^verbatim>\<open>read_csv\<close> keeps the four columns asked for. A price column with an empty cell
  is read in the type that can hold the missing value: every price is converted.
\<close>

type_synonym ('n, 'v) raw_row = "string option \<times> 'n option \<times> string option \<times> 'v option"

definition read_csv ::
  "('v \<Rightarrow> 'v) \<Rightarrow> ('n, 'v) csv_file \<Rightarrow> string list \<Rightarrow> string
     \<Rightarrow> error + ('n, 'v) raw_row list" where
  "read_csv promote f usecols PRICE_COL =
     (if \<not> set usecols \<subseteq> set (header f)
      then Inl (ValueError ''Usecols do not match columns'')
      else (let price = (\<lambda>l. if PRICE_COL = ''MW'' then MW l else PRC l);
                cast = (if list_ex (\<lambda>l. case price l of None \<Rightarrow> True | Some v \<Rightarrow> False)
                             (body f)
                        then promote else (\<lambda>v. v))
            in Inr (map (\<lambda>l. (INTERVALSTARTTIME_GMT l, NODE l, LMP_TYPE l,
                               map_option cast (price l))) (body f))))"

definition unpack ::
  "('v \<Rightarrow> 'v) \<Rightarrow> ('n, 'v) payload \<Rightarrow> string \<Rightarrow> error + ('n, 'v) raw_row list" where
  "unpack promote c PRICE_COL =
     (case c of
        Not_a_zip \<Rightarrow> Inl BadZipFile
      | Zip members \<Rightarrow>
          (case members of
             [] \<Rightarrow> Inl IndexError
           | f # _ \<Rightarrow>
               read_csv promote f [''INTERVALSTARTTIME_GMT'', ''NODE'', ''LMP_TYPE'', PRICE_COL]
                 PRICE_COL))"

subsection \<open>Data frames\<close>

text \<open>
  A cell of a data frame, and a frame as the list of its labelled columns, left to right.
  Labels may repeat, as they may in pandas.
\<close>

datatype ('n, 'v) cell = Str string | Node_id 'n | Timestamp int | Mkt market | Num 'v | NaN

type_synonym ('n, 'v) frame = "(string \<times> ('n, 'v) cell list) list"

definition nrows :: "('n, 'v) frame \<Rightarrow> nat" where
  "nrows df = (case df of [] \<Rightarrow> 0 | (l, cs) # _ \<Rightarrow> length cs)"

definition labels :: "('n, 'v) frame \<Rightarrow> string list" where
  "labels df = map fst df"

text \<open>\<^verbatim>\<open>df[label]\<close>: every column that carries the label.\<close>

definition named :: "('n, 'v) frame \<Rightarrow> string \<Rightarrow> ('n, 'v) frame" where
  "named df l = filter (\<lambda>(l', cs). l' = l) df"

text \<open>
  \<^verbatim>\<open>df.rename(columns=m)\<close>: a label that is a key of the dictionary is replaced,
  the others stay.
\<close>

definition rename :: "(string \<times> string) list \<Rightarrow> ('n, 'v) frame \<Rightarrow> ('n, 'v) frame" where
  "rename m df = map (\<lambda>(l, cs). (case map_of m l of None \<Rightarrow> l | Some l' \<Rightarrow> l', cs)) df"

text \<open>
  \<^verbatim>\<open>df[label] = column\<close>: the columns that carry the label are overwritten in place;
  when there is none the column is appended.
\<close>

definition setitem ::
  "('n, 'v) frame \<Rightarrow> string \<Rightarrow> ('n, 'v) cell list \<Rightarrow> ('n, 'v) frame" where
  "setitem df l cs =
     (if l \<in> set (labels df) then map (\<lambda>(l', cs'). (l', if l' = l then cs else cs')) df
      else df @ [(l, cs)])"

text \<open>
  \<^verbatim>\<open>df[[l1, ..., ln]]\<close>: for each requested label in turn, every column that carries
  it; a label that no column carries raises KeyError.
\<close>

definition getitems :: "('n, 'v) frame \<Rightarrow> string list \<Rightarrow> error + ('n, 'v) frame" where
  "getitems df ls =
     (case filter (\<lambda>l. l \<notin> set (labels df)) ls of
        [] \<Rightarrow> Inr (concat (map (named df) ls))
      | l # _ \<Rightarrow> Inl (KeyError l))"

subsection \<open>The long-to-wide pivot (lines 247-252)\<close>

text \<open>
  \<^verbatim>\<open>pivot_table(index=[time, node], columns=type, values=price, aggfunc="first")\<close>
  groups the rows by (time, node, type), leaving out the rows with a missing key; takes
  in each group the first value that is not missing; drops the groups that have none;
  and spreads the types into columns. Index and columns come out sorted, each in the
  order of its values: text by code point, numbers by size. When the wide table has a
  cell with no group behind it, the cell is missing and every price is converted to the
  type that can hold the missing value.
\<close>

type_synonym 'n key = "(string \<times> 'n) \<times> string"

fun keyed :: "('n, 'v) raw_row \<Rightarrow> ('n key \<times> 'v option) option" where
  "keyed (Some t, Some n, Some c, v) = Some (((t, n), c), v)"
| "keyed _ = None"

definition group :: "('n, 'v) raw_row list \<Rightarrow> 'n key \<Rightarrow> 'v option list" where
  "group rows k = map snd (filter (\<lambda>(k', v). k' = k) (List.map_filter keyed rows))"

fun agg_first :: "'v option list \<Rightarrow> 'v option" where
  "agg_first [] = None"
| "agg_first (None # vs) = agg_first vs"
| "agg_first (Some v # vs) = Some v"

definition agged :: "('n :: linorder, 'v) raw_row list \<Rightarrow> ('n key \<times> 'v) list" where
  "agged rows =
     List.map_filter (\<lambda>k. map_option (Pair k) (agg_first (group rows k)))
       (sort (remdups (map fst (List.map_filter keyed rows))))"

definition has_missing_cell :: "('n :: linorder, 'v) raw_row list \<Rightarrow> bool" where
  "has_missing_cell rows =
     (let a = agged rows in
      list_ex (\<lambda>i. list_ex (\<lambda>c. case map_of a (i, c) of None \<Rightarrow> True | Some v \<Rightarrow> False)
                      (map (snd \<circ> fst) a))
        (map (fst \<circ> fst) a))"

record ('n, 'v) pivoted =
  index :: "(string \<times> 'n) list"
  columns :: "string list"
  cells :: "('n, 'v) cell list list"

definition pivot_table ::
  "('v \<Rightarrow> 'v) \<Rightarrow> ('n :: linorder, 'v) raw_row list \<Rightarrow> ('n, 'v) pivoted" where
  "pivot_table promote rows =
     (let a = agged rows;
          idx = sort (remdups (map (fst \<circ> fst) a));
          cols = sort (remdups (map (snd \<circ> fst) a));
          cast = (if has_missing_cell rows then promote else (\<lambda>v. v))
      in \<lparr>index = idx, columns = cols,
          cells = map (\<lambda>c. map (\<lambda>i. case map_of a (i, c) of
                                       None \<Rightarrow> NaN
                                     | Some v \<Rightarrow> Num (cast v)) idx)
                    cols\<rparr>)"

subsection \<open>Normalising the frame (lines 254-271)\<close>

text \<open>
  \<^verbatim>\<open>reset_index\<close> puts the two index levels in front as ordinary columns, and
  refuses when a column already carries the name of a level.
\<close>

definition reset_index :: "('n, 'v) pivoted \<Rightarrow> error + ('n, 'v) frame" where
  "reset_index p =
     (if ''INTERVALSTARTTIME_GMT'' \<in> set (columns p) \<or> ''NODE'' \<in> set (columns p)
      then Inl (ValueError ''cannot insert, already exists'')
      else Inr ((''INTERVALSTARTTIME_GMT'', map (Str \<circ> fst) (index p))
                # (''NODE'', map (Node_id \<circ> snd) (index p))
                # zip (columns p) (cells p)))"

definition canonical_names :: "(string \<times> string) list" where
  "canonical_names =
     [(''INTERVALSTARTTIME_GMT'', ''Time''), (''NODE'', ''Node''), (''LMP'', ''LMP''),
      (''MCE'', ''Energy''), (''MCC'', ''Congestion''), (''MCL'', ''Loss'')]"

text \<open>
  \<^verbatim>\<open>pd.to_datetime(df["Time"]).dt.tz_convert(tz)\<close>. Reading a column of time strings
  as zone-aware timestamps is a parameter, \<open>to_datetime\<close>: it takes the whole column and
  gives the instant of each of its cells, or the error pandas raises (a cell that is no
  time, cells without an offset, cells whose offsets differ). A frame with no Time column,
  or with several, fails as well; so does an empty column, which pandas reads as
  timestamps without a zone.
\<close>

fun cell_text :: "('n, 'v) cell \<Rightarrow> string option" where
  "cell_text (Str s) = Some s"
| "cell_text c = None"

definition time_column ::
  "(string list \<Rightarrow> error + (string \<Rightarrow> int)) \<Rightarrow> ('n, 'v) frame
     \<Rightarrow> error + ('n, 'v) cell list" where
  "time_column to_datetime df =
     (case named df ''Time'' of
        [] \<Rightarrow> Inl (KeyError ''Time'')
      | [(l, cs)] \<Rightarrow>
          (case those (map cell_text cs) of
             None \<Rightarrow> Inl (TypeError ''to_datetime'')
           | Some ss \<Rightarrow>
               if ss = [] then Inl (TypeError ''tz_convert'')
               else (case to_datetime ss of
                       Inl e \<Rightarrow> Inl e
                     | Inr instant \<Rightarrow>
                         Inr (map (\<lambda>s. Timestamp (tz_convert (instant s) default_timezone))
                                ss)))
      | _ \<Rightarrow> Inl (ValueError ''to_datetime''))"

definition output_columns :: "string list" where
  "output_columns = [''Time'', ''Market'', ''Node'', ''LMP'', ''Energy'', ''Congestion'', ''Loss'']"

definition lmp_frame ::
  "(string list \<Rightarrow> error + (string \<Rightarrow> int)) \<Rightarrow> ('v \<Rightarrow> 'v) \<Rightarrow> market
     \<Rightarrow> ('n :: linorder, 'v) raw_row list \<Rightarrow> error + ('n, 'v) frame" where
  "lmp_frame to_datetime promote market rows =
     (case reset_index (pivot_table promote rows) of
        Inl e \<Rightarrow> Inl e
      | Inr df \<Rightarrow>
          (let df = rename canonical_names df in
           case time_column to_datetime df of
             Inl e \<Rightarrow> Inl e
           | Inr ts \<Rightarrow>
               (let df = setitem df ''Time'' ts;
                    df = setitem df ''Market'' (replicate (nrows df) (Mkt market))
                in getitems df output_columns)))"

subsection \<open>\<^verbatim>\<open>get_historical_lmp\<close> (lines 173-277)\<close>

text \<open>
  Modelled from the spec: \<^verbatim>\<open>utils._handle_date\<close> is not among the sources. The spec
  has it resolve the start date to a timezone-aware instant in the given zone; it is the
  parameter \<open>handle_date\<close>.

  Modelled from the spec: \<^verbatim>\<open>utils.filter_lmp_nodes\<close> is not among the sources. The
  spec has it filter the rows of the frame to the requested nodes; it is the parameter
  \<open>filter_lmp_nodes\<close>, which gives a frame or raises. Line 273 binds its result to
  \<open>data\<close>; line 277 returns \<open>df\<close>.

  \<^verbatim>\<open>time.sleep\<close> refuses a negative length.
\<close>

definition get_historical_lmp ::
  "(string \<Rightarrow> nat \<Rightarrow> ('n :: linorder, 'v) outcome) \<Rightarrow> ('d \<Rightarrow> string \<Rightarrow> int)
     \<Rightarrow> (string list \<Rightarrow> error + (string \<Rightarrow> int)) \<Rightarrow> ('v \<Rightarrow> 'v)
     \<Rightarrow> (('n, 'v) frame \<Rightarrow> string list \<Rightarrow> error + ('n, 'v) frame)
     \<Rightarrow> 'd \<Rightarrow> market \<Rightarrow> string list option \<Rightarrow> int
     \<Rightarrow> (error + ('n, 'v) frame) \<times> event list" where
  "get_historical_lmp requests_get handle_date to_datetime promote filter_lmp_nodes
       date market nodes sleep =
     (let nodes = (case nodes of None \<Rightarrow> trading_hubs_nodes | Some ns \<Rightarrow> ns);
          start = handle_date date default_timezone;
          nodes_str = join '','' nodes
      in case query_window start of
           Inl e \<Rightarrow> (Inl e, [])
         | Inr (start, end_t) \<Rightarrow>
             (let start = strftime start;
                  end_t = strftime end_t
              in case market_query market of
                   Inl e \<Rightarrow> (Inl e, [])
                 | Inr (query_name, market_run_id, version, PRICE_COL) \<Rightarrow>
                     (let url = query_url query_name version start end_t market_run_id
                                  nodes_str
                      in case retry_loop requests_get url 0 None [] of
                           (Inl e, tr) \<Rightarrow> (Inl e, tr)
                         | (Inr r, tr) \<Rightarrow>
                             (case unpack promote (content r) PRICE_COL of
                                Inl e \<Rightarrow> (Inl e, tr)
                              | Inr rows \<Rightarrow>
                                  (case lmp_frame to_datetime promote market rows of
                                     Inl e \<Rightarrow> (Inl e, tr)
                                   | Inr df \<Rightarrow>
                                       (case filter_lmp_nodes df nodes of
                                          Inl e \<Rightarrow> (Inl e, tr)
                                        | Inr data \<Rightarrow>
                                            if sleep < 0
                                            then (Inl (ValueError
                                                         ''sleep length must be non-negative''),
                                                  tr)
                                            else (Inr df, tr @ [Sleep sleep])))))))"

text \<open>What one failed pass of the loop leaves in the trace.\<close>

definition failure_events :: "string \<Rightarrow> nat \<Rightarrow> int \<Rightarrow> event list" where
  "failure_events url retry_num status =
     [Get url,
      Print (''Failed to get data from CAISO. Error: ''
             @ (if status < 0 then ''-'' else '''') @ str_nat (nat \<bar>status\<bar>)),
      Print (''Retrying '' @ str_nat (retry_num + 1) @ ''...''),
      Sleep 5]"

subsection \<open>Vocabulary of the specification\<close>

text \<open>
  The specification speaks of one calendar day in the operator's local zone. A zone is
  given by its offset from UTC, in seconds, at each instant; the wall clock of the zone
  reads the instant plus the offset. An instant \<open>e\<close> is one local calendar day after
  \<open>s\<close> when the wall clock at \<open>e\<close> reads one day more than at \<open>s\<close>.
\<close>

definition wall_clock :: "(int \<Rightarrow> int) \<Rightarrow> int \<Rightarrow> int" where
  "wall_clock utcoffset t = t + utcoffset t"

definition one_calendar_day_later :: "(int \<Rightarrow> int) \<Rightarrow> int \<Rightarrow> int \<Rightarrow> bool" where
  "one_calendar_day_later utcoffset s e \<longleftrightarrow> wall_clock utcoffset e = wall_clock utcoffset s + 86400"

text \<open>
  A start whose window exists: the start and the instant one day later are instants a
  timestamp can hold.
\<close>

definition window_representable :: "int \<Rightarrow> bool" where
  "window_representable start \<longleftrightarrow> Timestamp_min \<le> start \<and> start + 86400 \<le> Timestamp_max"

text \<open>
  US/Pacific in the year 2022: UTC-8, and UTC-7 from 2022-03-13T10:00Z (instant 1647165600)
  until 2022-11-06T09:00Z (instant 1667725200).
\<close>

definition us_pacific_2022 :: "int \<Rightarrow> int" where
  "us_pacific_2022 t = (if 1647165600 \<le> t \<and> t < 1667725200 then - 25200 else - 28800)"

text \<open>The events of a trace that are GETs, and those that are pauses.\<close>

fun is_get :: "event \<Rightarrow> bool" where
  "is_get (Get u) = True"
| "is_get e = False"

fun is_sleep :: "event \<Rightarrow> bool" where
  "is_sleep (Sleep n) = True"
| "is_sleep e = False"

text \<open>Reading a pivoted table: the cell at an index entry and a column label.\<close>

definition cell_at ::
  "('n, 'v) pivoted \<Rightarrow> string \<times> 'n \<Rightarrow> string \<Rightarrow> ('n, 'v) cell option" where
  "cell_at p i c =
     (case map_of (zip (columns p) (cells p)) c of
        None \<Rightarrow> None
      | Some col \<Rightarrow> map_of (zip (index p) col) i)"

text \<open>
  The component types a payload names, and when they clash after renaming: a type called
  Node meets the node column, and a type that already has a canonical name meets the type
  that is renamed to it.
\<close>

definition component_types :: "('n, 'v) payload \<Rightarrow> string list" where
  "component_types c =
     (case c of
        Not_a_zip \<Rightarrow> []
      | Zip members \<Rightarrow>
          (case members of [] \<Rightarrow> [] | f # _ \<Rightarrow> List.map_filter LMP_TYPE (body f)))"

definition label_clash :: "string list \<Rightarrow> bool" where
  "label_clash types \<longleftrightarrow>
     ''Node'' \<in> set types
     \<or> (''MCE'' \<in> set types \<and> ''Energy'' \<in> set types)
     \<or> (''MCC'' \<in> set types \<and> ''Congestion'' \<in> set types)
     \<or> (''MCL'' \<in> set types \<and> ''Loss'' \<in> set types)"

text \<open>No two rows of a raw table share their (time, node, type) key.\<close>

definition no_duplicate_keys :: "('n, 'v) raw_row list \<Rightarrow> bool" where
  "no_duplicate_keys rows \<longleftrightarrow> distinct (map fst (List.map_filter keyed rows))"

text \<open>Every price of a raw table is one the conversion leaves as it is.\<close>

definition prices_exact :: "('v \<Rightarrow> 'v) \<Rightarrow> ('n, 'v) raw_row list \<Rightarrow> bool" where
  "prices_exact promote rows \<longleftrightarrow>
     list_all (\<lambda>(t, n, c, v). case v of None \<Rightarrow> True | Some x \<Rightarrow> promote x = x) rows"

text \<open>
  The label a column has after line 254, and the frame the method holds after line 269,
  before the seven output columns are selected: \<open>instant\<close> gives the instants of the
  time strings of the index.
\<close>

definition canonical :: "string \<Rightarrow> string" where
  "canonical l = (case map_of canonical_names l of None \<Rightarrow> l | Some l' \<Rightarrow> l')"

definition renamed_columns :: "('n, 'v) pivoted \<Rightarrow> ('n, 'v) frame" where
  "renamed_columns p = map (\<lambda>(l, cs). (canonical l, cs)) (zip (columns p) (cells p))"

definition wide_frame ::
  "('n, 'v) pivoted \<Rightarrow> (string \<Rightarrow> int) \<Rightarrow> market \<Rightarrow> ('n, 'v) frame" where
  "wide_frame p instant market =
     setitem ((''Time'', map (Timestamp \<circ> instant \<circ> fst) (index p))
              # (''Node'', map (Node_id \<circ> snd) (index p))
              # renamed_columns p)
       ''Market'' (replicate (length (index p)) (Mkt market))"

section \<open>Properties\<close>

subsection \<open>The retry loop\<close>

lemma retry_loop_success:
  assumes "retry_num < 3" "requests_get url retry_num = Response r'" "status_code r' = 200"
  shows "retry_loop requests_get url retry_num r tr = (Inr r', tr @ [Get url])"
  using assms by (subst retry_loop.simps) simp

lemma retry_loop_failure:
  assumes "retry_num < 3" "requests_get url retry_num = Response r'" "status_code r' \<noteq> 200"
  shows "retry_loop requests_get url retry_num r tr =
           retry_loop requests_get url (retry_num + 1) (Some r')
             (tr @ failure_events url retry_num (status_code r'))"
  using assms by (subst retry_loop.simps) (simp add: failure_events_def)

lemma retry_loop_network_failure:
  assumes "retry_num < 3" "requests_get url retry_num = Network_failure"
  shows "retry_loop requests_get url retry_num r tr = (Inl ConnectionError, tr @ [Get url])"
  using assms by (subst retry_loop.simps) simp

lemma retry_loop_exhausted:
  assumes "\<not> retry_num < 3"
  shows "retry_loop requests_get url retry_num (Some r') tr = (Inr r', tr)"
  using assms by (subst retry_loop.simps) simp


text \<open>A response that leaves the loop is one the server gave, at one of the three GETs.\<close>

lemma retry_loop_response:
  "retry_loop requests_get url retry_num r tr = (Inr r', tr') \<Longrightarrow>
     (\<exists>k<3. requests_get url k = Response r') \<or> r = Some r'"
proof (induction requests_get url retry_num r tr rule: retry_loop.induct)
  case (1 requests_get url retry_num r tr)
  show ?case
  proof (cases "retry_num < 3")
    case False
    with "1.prems" show ?thesis
      by (subst (asm) retry_loop.simps) (simp split: option.splits)
  next
    case lt: True
    show ?thesis
    proof (cases "requests_get url retry_num")
      case Network_failure
      with lt "1.prems" show ?thesis by (simp add: retry_loop_network_failure)
    next
      case (Response r'')
      show ?thesis
      proof (cases "status_code r'' = 200")
        case True
        with Response lt "1.prems" show ?thesis by (auto simp: retry_loop_success)
      next
        case False
        from "1.prems" have "retry_loop requests_get url (retry_num + 1) (Some r'')
             (tr @ [Get url,
                    Print (''Failed to get data from CAISO. Error: ''
                           @ (if status_code r'' < 0 then ''-'' else '''')
                           @ str_nat (nat \<bar>status_code r''\<bar>)),
                    Print (''Retrying '' @ str_nat (retry_num + 1) @ ''...''),
                    Sleep 5]) = (Inr r', tr')"
          by (simp add: retry_loop_failure [where requests_get = requests_get and url = url, OF lt Response False] failure_events_def)
        from "1.IH" [OF lt Response False this] Response lt show ?thesis by auto
      qed
    qed
  qed
qed

subsection \<open>What a call that returns went through\<close>

lemma query_window_representable:
  "window_representable start \<Longrightarrow> query_window start = Inr (start, start + 86400)"
  by (simp add: window_representable_def query_window_def tz_convert_def DateOffset_utc_def)

lemma query_window_Inr:
  "query_window start = Inr (s, e) \<Longrightarrow> s = start \<and> e = start + 86400"
  by (auto simp: query_window_def tz_convert_def DateOffset_utc_def Let_def split: if_splits)

lemma get_historical_lmp_unfold:
  assumes "query_window (handle_date date default_timezone) = Inr (s, e)"
  shows "get_historical_lmp requests_get handle_date to_datetime promote filter_lmp_nodes
           date market nodes sleep =
     (case market_query market of
        Inl e \<Rightarrow> (Inl e, [])
      | Inr (query_name, market_run_id, version, PRICE_COL) \<Rightarrow>
          (case retry_loop requests_get
                  (query_url query_name version
                     (strftime (handle_date date default_timezone))
                     (strftime (handle_date date default_timezone + 86400))
                     market_run_id
                     (join '','' (case nodes of None \<Rightarrow> trading_hubs_nodes | Some ns \<Rightarrow> ns)))
                  0 None [] of
             (Inl e, tr) \<Rightarrow> (Inl e, tr)
           | (Inr r, tr) \<Rightarrow>
               (case unpack promote (content r) PRICE_COL of
                  Inl e \<Rightarrow> (Inl e, tr)
                | Inr rows \<Rightarrow>
                    (case lmp_frame to_datetime promote market rows of
                       Inl e \<Rightarrow> (Inl e, tr)
                     | Inr df \<Rightarrow>
                         (case filter_lmp_nodes df
                                 (case nodes of None \<Rightarrow> trading_hubs_nodes | Some ns \<Rightarrow> ns) of
                            Inl e \<Rightarrow> (Inl e, tr)
                          | Inr data \<Rightarrow>
                              if sleep < 0
                              then (Inl (ValueError ''sleep length must be non-negative''), tr)
                              else (Inr df, tr @ [Sleep sleep]))))))"
proof -
  from query_window_Inr [OF assms] have "s = handle_date date default_timezone"
    "e = handle_date date default_timezone + 86400"
    by simp_all
  with assms show ?thesis
    by (simp add: get_historical_lmp_def Let_def split: sum.splits prod.splits)
qed

lemma get_historical_lmp_out_of_bounds:
  assumes "query_window (handle_date date default_timezone) = Inl err"
  shows "get_historical_lmp requests_get handle_date to_datetime promote filter_lmp_nodes
           date market nodes sleep = (Inl err, [])"
  using assms by (simp add: get_historical_lmp_def Let_def)

lemma get_historical_lmp_returns:
  assumes "get_historical_lmp requests_get handle_date to_datetime promote filter_lmp_nodes
             date market nodes sleep = (Inr df, tr)"
  shows "\<exists>query_name market_run_id version PRICE_COL url r tr0 rows data.
           market_query market = Inr (query_name, market_run_id, version, PRICE_COL)
         \<and> url = query_url query_name version
                   (strftime (handle_date date default_timezone))
                   (strftime (handle_date date default_timezone + 86400))
                   market_run_id
                   (join '','' (case nodes of None \<Rightarrow> trading_hubs_nodes | Some ns \<Rightarrow> ns))
         \<and> retry_loop requests_get url 0 None [] = (Inr r, tr0)
         \<and> (\<exists>k<3. requests_get url k = Response r)
         \<and> unpack promote (content r) PRICE_COL = Inr rows
         \<and> lmp_frame to_datetime promote market rows = Inr df
         \<and> filter_lmp_nodes df (case nodes of None \<Rightarrow> trading_hubs_nodes | Some ns \<Rightarrow> ns)
               = Inr data
         \<and> 0 \<le> sleep \<and> tr = tr0 @ [Sleep sleep]"
proof (cases "query_window (handle_date date default_timezone)")
  case (Inl err)
  from assms show ?thesis
    unfolding get_historical_lmp_out_of_bounds
      [where handle_date = handle_date and date = date, OF Inl]
    by simp
next
  case (Inr w)
  obtain s e where w: "query_window (handle_date date default_timezone) = Inr (s, e)"
    using Inr by (cases w) simp
  from assms show ?thesis
    unfolding get_historical_lmp_unfold
      [where handle_date = handle_date and date = date, OF w]
    by (auto split: sum.splits prod.splits if_splits dest: retry_loop_response)
qed

subsection \<open>Unsupported markets\<close>

text \<open>
  Claim C8. For every market value that is not one of DAY_AHEAD_HOURLY, REAL_TIME_15_MIN,
  REAL_TIME_HOURLY, and every start date whose window exists (line 198 raises for a start
  within a day of the last instant a timestamp can hold), the call fails with the error
  "LMP Market is not supported", and its trace is empty: no GET was issued, nothing was
  printed, no pause was made.
\<close>

theorem unsupported_market_fails_fast:
  assumes "market \<notin> {DAY_AHEAD_HOURLY, REAL_TIME_15_MIN, REAL_TIME_HOURLY}"
    and "window_representable (handle_date date default_timezone)"
  shows "get_historical_lmp requests_get handle_date to_datetime promote filter_lmp_nodes
           date market nodes sleep
           = (Inl (RuntimeError ''LMP Market is not supported''), [])"
  using assms(1)
  unfolding get_historical_lmp_unfold
    [where handle_date = handle_date and date = date,
     OF query_window_representable [OF assms(2)]]
  by (cases market) simp_all

theorem unsupported_market_fails_fast_witness:
  "Other_market ''REAL_TIME_5_MIN'' \<notin> {DAY_AHEAD_HOURLY, REAL_TIME_15_MIN, REAL_TIME_HOURLY}
   \<and> window_representable 1647158400
   \<and> get_historical_lmp
        (\<lambda>u k. Response \<lparr>status_code = 200, content = (Zip [] :: (string, int) payload)\<rparr>)
        (\<lambda>(d :: int) z. d) (\<lambda>ss. Inl (ValueError ''to_datetime'')) float64_of_int64
        (\<lambda>df ns. Inr df) 1647158400
        (Other_market ''REAL_TIME_5_MIN'') (Some [''NODE_A'']) 5
      = (Inl (RuntimeError ''LMP Market is not supported''), [])"
proof -
  have h: "Other_market ''REAL_TIME_5_MIN''
             \<notin> {DAY_AHEAD_HOURLY, REAL_TIME_15_MIN, REAL_TIME_HOURLY}"
    by simp
  have w: "window_representable 1647158400"
    by (simp add: window_representable_def Timestamp_min_def Timestamp_max_def)
  from unsupported_market_fails_fast
         [where handle_date = "\<lambda>(d :: int) z. d" and date = 1647158400
            and market = "Other_market ''REAL_TIME_5_MIN''"] h w
  show ?thesis by simp
qed

subsection \<open>The node list in the query\<close>




subsection \<open>Three failing responses\<close>

lemma retry_loop_three_failures:
  assumes "requests_get url 0 = Response r0" "status_code r0 \<noteq> 200"
    and "requests_get url 1 = Response r1" "status_code r1 \<noteq> 200"
    and "requests_get url 2 = Response r2" "status_code r2 \<noteq> 200"
  shows "retry_loop requests_get url 0 None [] =
           (Inr r2, failure_events url 0 (status_code r0)
                    @ failure_events url 1 (status_code r1)
                    @ failure_events url 2 (status_code r2))"
proof -
  have "retry_loop requests_get url 0 None [] =
          retry_loop requests_get url 1 (Some r0) (failure_events url 0 (status_code r0))"
    using retry_loop_failure [where requests_get = requests_get and url = url
        and retry_num = 0 and r = None and tr = "[]", OF _ assms(1,2)]
    by simp
  also have "\<dots> = retry_loop requests_get url 2 (Some r1)
          (failure_events url 0 (status_code r0) @ failure_events url 1 (status_code r1))"
    using retry_loop_failure [where requests_get = requests_get and url = url
        and retry_num = 1, OF _ assms(3,4)]
    by (simp add: numeral_2_eq_2)
  also have "\<dots> = retry_loop requests_get url 3 (Some r2)
          ((failure_events url 0 (status_code r0) @ failure_events url 1 (status_code r1))
            @ failure_events url 2 (status_code r2))"
    using retry_loop_failure [where requests_get = requests_get and url = url
        and retry_num = 2, OF _ assms(5,6)]
    by (simp add: numeral_3_eq_3 numeral_2_eq_2)
  also have "\<dots> = (Inr r2, (failure_events url 0 (status_code r0)
                    @ failure_events url 1 (status_code r1))
                    @ failure_events url 2 (status_code r2))"
    by (rule retry_loop_exhausted) simp
  finally show ?thesis by simp
qed

text \<open>
  Claim C3. After three failing responses in a row the loop has issued exactly three
  GETs and hands on the third response; it has made three pauses of five seconds, the
  last of them after the third failure, when no attempt follows.
\<close>

theorem three_failures_three_gets_three_pauses:
  assumes "requests_get url 0 = Response r0" "status_code r0 \<noteq> 200"
    and "requests_get url 1 = Response r1" "status_code r1 \<noteq> 200"
    and "requests_get url 2 = Response r2" "status_code r2 \<noteq> 200"
  shows "fst (retry_loop requests_get url 0 None []) = Inr r2
       \<and> length (filter is_get (snd (retry_loop requests_get url 0 None []))) = 3
       \<and> filter is_sleep (snd (retry_loop requests_get url 0 None []))
           = [Sleep 5, Sleep 5, Sleep 5]
       \<and> last (snd (retry_loop requests_get url 0 None [])) = Sleep 5"
  unfolding retry_loop_three_failures
      [where requests_get = requests_get and url = url, OF assms]
  by (simp add: failure_events_def)

theorem three_failures_three_gets_three_pauses_witness:
  "fst (retry_loop (\<lambda>u k. Response \<lparr>status_code = 503, content = (Not_a_zip :: (string, int) payload)\<rparr>)
          ''u'' 0 None [])
     = Inr \<lparr>status_code = 503, content = Not_a_zip\<rparr>
   \<and> length (filter is_get
        (snd (retry_loop (\<lambda>u k. Response \<lparr>status_code = 503, content = (Not_a_zip :: (string, int) payload)\<rparr>)
               ''u'' 0 None []))) = 3
   \<and> filter is_sleep
        (snd (retry_loop (\<lambda>u k. Response \<lparr>status_code = 503, content = (Not_a_zip :: (string, int) payload)\<rparr>)
               ''u'' 0 None []))
       = [Sleep 5, Sleep 5, Sleep 5]"
  using three_failures_three_gets_three_pauses
    [of "\<lambda>u k. Response \<lparr>status_code = 503, content = (Not_a_zip :: (string, int) payload)\<rparr>" "''u''"
        "\<lparr>status_code = 503, content = Not_a_zip\<rparr>"
        "\<lparr>status_code = 503, content = Not_a_zip\<rparr>"
        "\<lparr>status_code = 503, content = Not_a_zip\<rparr>"]
  by simp

subsection \<open>The query window\<close>

text \<open>
  Claim C4, as stated, fails. On 2022-03-13 the Pacific zone loses an hour. For the start
  at local midnight of that day (08:00 UTC) the end the method computes is 08:00 UTC of
  the next day, 01:00 on the local wall clock: not one local calendar day after the start,
  which would be 07:00 UTC.
\<close>

theorem window_end_not_local_calendar_day_counterexample:
  "wall_clock us_pacific_2022 1647158400 = 1647129600
   \<and> query_window 1647158400 = Inr (1647158400, 1647244800)
   \<and> strftime 1647158400 = ''20220313T08:00-0000''
   \<and> strftime 1647244800 = ''20220314T08:00-0000''
   \<and> wall_clock us_pacific_2022 1647244800 = 1647129600 + 86400 + 3600
   \<and> \<not> one_calendar_day_later us_pacific_2022 1647158400 1647244800"
proof -
  have w: "query_window 1647158400 = Inr (1647158400, 1647244800)"
    by (simp add: query_window_def tz_convert_def DateOffset_utc_def
          Timestamp_min_def Timestamp_max_def)
  have s1: "strftime 1647158400 = ''20220313T08:00-0000''" by code_simp
  have s2: "strftime 1647244800 = ''20220314T08:00-0000''" by code_simp
  show ?thesis
    unfolding w using s1 s2
    by (simp add: wall_clock_def us_pacific_2022_def one_calendar_day_later_def)
qed

text \<open>
  Claim C4, amended. For a start date the method accepts, one whose start and the instant
  a day later are instants a timestamp can hold, the end of the query window is the start
  plus 86400 seconds, a fixed 24 hours: the day is added after the start has been
  converted to UTC. The end is one local calendar day after the start exactly when the
  zone has the same offset at both instants.
\<close>

theorem window_end_is_24_hours_later:
  assumes "window_representable start"
  shows "query_window start = Inr (start, start + 86400)
       \<and> (one_calendar_day_later utcoffset start (start + 86400)
            \<longleftrightarrow> utcoffset (start + 86400) = utcoffset start)"
  using query_window_representable [OF assms]
  by (auto simp: one_calendar_day_later_def wall_clock_def)

theorem window_end_is_24_hours_later_witness:
  "window_representable 1659337200
   \<and> query_window 1659337200 = Inr (1659337200, 1659423600)
   \<and> one_calendar_day_later us_pacific_2022 1659337200 1659423600"
proof -
  have w: "window_representable 1659337200"
    by (simp add: window_representable_def Timestamp_min_def Timestamp_max_def)
  from window_end_is_24_hours_later [OF w, of us_pacific_2022] w show ?thesis
    by (simp add: us_pacific_2022_def)
qed

subsection \<open>The pivot\<close>

lemma keyed_eq_Some:
  "keyed r = Some (k, v) \<longleftrightarrow> r = (Some (fst (fst k)), Some (snd (fst k)), Some (snd k), v)"
  by (cases r rule: keyed.cases) auto

lemma set_map_filter: "set (List.map_filter f xs) = {y. \<exists>x \<in> set xs. f x = Some y}"
  by (induction xs) (auto split: option.splits)

lemma map_filter_append:
  "List.map_filter f (xs @ ys) = List.map_filter f xs @ List.map_filter f ys"
  by (induction xs) (auto split: option.splits)

lemma in_keyed_rows:
  "(k, v) \<in> set (List.map_filter keyed rows)
     \<longleftrightarrow> (Some (fst (fst k)), Some (snd (fst k)), Some (snd k), v) \<in> set rows"
  by (auto simp: set_map_filter keyed_eq_Some)

lemma set_group: "set (group rows k) = {v. (k, v) \<in> set (List.map_filter keyed rows)}"
proof -
  have "(\<lambda>(k', v :: 'a option). k' = k) = (\<lambda>p. fst p = k)" by auto
  then show ?thesis by (force simp: group_def)
qed

lemma group_append: "group (xs @ ys) k = group xs k @ group ys k"
  by (simp add: group_def map_filter_append)

lemma group_Cons:
  "group (r # rows) k =
     (case keyed r of
        None \<Rightarrow> group rows k
      | Some (k', v) \<Rightarrow> if k' = k then v # group rows k else group rows k)"
  by (auto simp: group_def map_filter_simps split: option.splits)

lemma agg_first_eq_None: "agg_first vs = None \<longleftrightarrow> (\<forall>v \<in> set vs. v = None)"
  by (induction vs rule: agg_first.induct) auto

lemma agg_first_in_set: "agg_first vs = Some v \<Longrightarrow> Some v \<in> set vs"
  by (induction vs rule: agg_first.induct) auto

lemma agg_first_skips:
  "\<forall>x \<in> set pre. x = None \<Longrightarrow> agg_first (pre @ vs) = agg_first vs"
  by (induction pre) auto

lemma agg_first_unique:
  assumes "\<forall>x \<in> set vs. \<forall>y \<in> set vs. x = y" "Some v \<in> set vs"
  shows "agg_first vs = Some v"
proof (cases "agg_first vs")
  case None
  with assms(2) show ?thesis by (auto simp: agg_first_eq_None)
next
  case (Some w)
  from agg_first_in_set [OF this] assms have "Some w = Some v" by blast
  with Some show ?thesis by simp
qed

lemma map_of_map_filter_Pair:
  "map_of (List.map_filter (\<lambda>k. map_option (Pair k) (g k)) ks) k
     = (if k \<in> set ks then g k else None)"
  by (induction ks) (auto simp: map_filter_simps split: option.splits)

lemma group_no_key:
  "k \<notin> fst ` set (List.map_filter keyed rows) \<Longrightarrow> group rows k = []"
  by (auto simp: group_def filter_empty_conv image_iff)

text \<open>One entry for each group that has a value: the first value of the group.\<close>

lemma map_of_agged: "map_of (agged rows) k = agg_first (group rows k)"
  unfolding agged_def map_of_map_filter_Pair
  by (auto simp: group_no_key)

lemma agged_iff: "(k, v) \<in> set (agged rows) \<longleftrightarrow> agg_first (group rows k) = Some v"
proof
  assume "(k, v) \<in> set (agged rows)"
  then show "agg_first (group rows k) = Some v"
    by (auto simp: agged_def set_map_filter)
next
  assume "agg_first (group rows k) = Some v"
  then have "map_of (agged rows) k = Some v" by (simp add: map_of_agged)
  then show "(k, v) \<in> set (agged rows)" by (rule map_of_SomeD)
qed

lemma has_value_iff:
  "(\<exists>v. agg_first (group rows k) = Some v)
     \<longleftrightarrow> (\<exists>v. (Some (fst (fst k)), Some (snd (fst k)), Some (snd k), Some v) \<in> set rows)"
proof
  assume "\<exists>v. agg_first (group rows k) = Some v"
  then obtain v where "Some v \<in> set (group rows k)" by (blast dest: agg_first_in_set)
  then show "\<exists>v. (Some (fst (fst k)), Some (snd (fst k)), Some (snd k), Some v) \<in> set rows"
    by (auto simp: set_group in_keyed_rows)
next
  assume "\<exists>v. (Some (fst (fst k)), Some (snd (fst k)), Some (snd k), Some v) \<in> set rows"
  then obtain v where "Some v \<in> set (group rows k)"
    by (auto simp: set_group in_keyed_rows)
  then have "agg_first (group rows k) \<noteq> None" by (auto simp: agg_first_eq_None)
  then show "\<exists>v. agg_first (group rows k) = Some v" by auto
qed

lemma index_pivot_table:
  "index (pivot_table promote rows) = sort (remdups (map (fst \<circ> fst) (agged rows)))"
  by (simp add: pivot_table_def Let_def)

lemma columns_pivot_table:
  "columns (pivot_table promote rows) = sort (remdups (map (snd \<circ> fst) (agged rows)))"
  by (simp add: pivot_table_def Let_def)

lemma cells_pivot_table:
  "cells (pivot_table promote rows) =
     map (\<lambda>c. map (\<lambda>i. case agg_first (group rows (i, c)) of
                             None \<Rightarrow> NaN
                           | Some v \<Rightarrow> Num (if has_missing_cell rows then promote v else v))
                 (index (pivot_table promote rows)))
       (columns (pivot_table promote rows))"
  by (cases "has_missing_cell rows")
     (simp_all add: pivot_table_def Let_def map_of_agged cong: option.case_cong)

lemma set_index_pivot_table:
  "set (index (pivot_table promote rows))
     = {(t, n). \<exists>c v. (Some t, Some n, Some c, Some v) \<in> set rows}"
proof -
  have "set (index (pivot_table promote rows)) = {i. \<exists>c v. ((i, c), v) \<in> set (agged rows)}"
    by (force simp: index_pivot_table image_iff)
  also have "\<dots> = {i. \<exists>c. \<exists>v. agg_first (group rows (i, c)) = Some v}"
    by (simp add: agged_iff)
  also have "\<dots> = {(t, n). \<exists>c v. (Some t, Some n, Some c, Some v) \<in> set rows}"
    using has_value_iff [of rows] by fastforce
  finally show ?thesis .
qed

lemma set_columns_pivot_table:
  "set (columns (pivot_table promote rows))
     = {c. \<exists>t n v. (Some t, Some n, Some c, Some v) \<in> set rows}"
proof -
  have "set (columns (pivot_table promote rows)) = {c. \<exists>i v. ((i, c), v) \<in> set (agged rows)}"
    by (force simp: columns_pivot_table image_iff)
  also have "\<dots> = {c. \<exists>i. \<exists>v. agg_first (group rows (i, c)) = Some v}"
    by (simp add: agged_iff)
  also have "\<dots> = {c. \<exists>t n v. (Some t, Some n, Some c, Some v) \<in> set rows}"
    using has_value_iff [of rows] by fastforce
  finally show ?thesis .
qed

lemma index_sorted_distinct:
  "sorted (index (pivot_table promote rows))" "distinct (index (pivot_table promote rows))"
  by (simp_all add: index_pivot_table)

lemma columns_sorted_distinct:
  "sorted (columns (pivot_table promote rows))" "distinct (columns (pivot_table promote rows))"
  by (simp_all add: columns_pivot_table)

lemma finite_priced_keys:
  "finite {(t, n). \<exists>c v. (Some t, Some n, Some c, Some v)
                          \<in> set (rows :: ('n :: linorder, 'v) raw_row list)}"
  using finite_set [of "index (pivot_table (\<lambda>v. v) rows)"]
  by (simp only: set_index_pivot_table)

lemma index_is_sorted_list_of_set:
  "index (pivot_table promote rows)
     = sorted_list_of_set {(t, n). \<exists>c v. (Some t, Some n, Some c, Some v) \<in> set rows}"
proof -
  have "index (pivot_table promote rows) = sorted_list_of_set (set (index (pivot_table promote rows)))"
    using index_sorted_distinct [where rows = rows]
    by (simp add: sorted_list_of_set.idem_if_sorted_distinct)
  then show ?thesis by (simp only: set_index_pivot_table)
qed

text \<open>
  The cell at an index entry and a column: the first value of the group, converted when
  the table has a missing cell; or NaN.
\<close>

lemma cell_at_pivot_table:
  "cell_at (pivot_table promote rows) i c =
     (if i \<in> set (index (pivot_table promote rows)) \<and> c \<in> set (columns (pivot_table promote rows))
      then Some (case agg_first (group rows (i, c)) of
                   None \<Rightarrow> NaN
                 | Some v \<Rightarrow> Num (if has_missing_cell rows then promote v else v))
      else None)"
  by (simp add: cell_at_def cells_pivot_table map_of_zip_map)

lemma cell_at_first:
  assumes "agg_first (group rows (i, c)) = Some v"
  shows "cell_at (pivot_table promote rows) i c
           = Some (Num (if has_missing_cell rows then promote v else v))"
proof -
  from assms have "((i, c), v) \<in> set (agged rows)" by (simp add: agged_iff)
  then have "i \<in> set (index (pivot_table promote rows))"
    "c \<in> set (columns (pivot_table promote rows))"
    by (force simp: index_pivot_table columns_pivot_table image_iff)+
  with assms show ?thesis by (simp add: cell_at_pivot_table)
qed

lemma cell_at_Num:
  "cell_at (pivot_table promote rows) i c = Some (Num w)
     \<longleftrightarrow> (\<exists>v. agg_first (group rows (i, c)) = Some v
              \<and> w = (if has_missing_cell rows then promote v else v))"
proof
  assume "cell_at (pivot_table promote rows) i c = Some (Num w)"
  then show "\<exists>v. agg_first (group rows (i, c)) = Some v
               \<and> w = (if has_missing_cell rows then promote v else v)"
    by (auto simp: cell_at_pivot_table split: if_splits option.splits)
next
  assume "\<exists>v. agg_first (group rows (i, c)) = Some v
            \<and> w = (if has_missing_cell rows then promote v else v)"
  then show "cell_at (pivot_table promote rows) i c = Some (Num w)"
    by (auto simp: cell_at_first)
qed

lemma cell_at_NaN:
  "cell_at (pivot_table promote rows) i c = Some NaN \<Longrightarrow> agg_first (group rows (i, c)) = None"
  by (auto simp: cell_at_pivot_table split: if_splits option.splits)

text \<open>The wide table has a missing cell when a time and node of the index lacks a type.\<close>

lemma has_missing_cell_iff:
  "has_missing_cell rows \<longleftrightarrow>
     (\<exists>i \<in> set (index (pivot_table promote rows)).
        \<exists>c \<in> set (columns (pivot_table promote rows)). agg_first (group rows (i, c)) = None)"
proof -
  have "(case map_of (agged rows) k of None \<Rightarrow> True | Some v \<Rightarrow> False)
          \<longleftrightarrow> agg_first (group rows k) = None" for k
    by (simp add: map_of_agged split: option.splits)
  then show ?thesis
    by (simp add: has_missing_cell_def Let_def list_ex_iff index_pivot_table
          columns_pivot_table)
qed

subsection \<open>Frames\<close>

lemma labels_append: "labels (df @ df') = labels df @ labels df'"
  by (simp add: labels_def)

lemma labels_named: "labels (named df l) = filter (\<lambda>l'. l' = l) (labels df)"
  by (induction df) (auto simp: labels_def named_def)

lemma labels_concat_named:
  "labels (concat (map (named df) ls))
     = concat (map (\<lambda>l. filter (\<lambda>l'. l' = l) (labels df)) ls)"
  by (induction ls) (simp_all add: labels_append labels_named, simp add: labels_def)

lemma set_named: "set (named df l) = {(l', cs). (l', cs) \<in> set df \<and> l' = l}"
  by (auto simp: named_def)

lemma named_eq_Nil: "named df l = [] \<longleftrightarrow> l \<notin> set (labels df)"
  by (force simp: named_def labels_def filter_empty_conv)

lemma getitems_Inr:
  "getitems df ls = Inr df'
     \<longleftrightarrow> set ls \<subseteq> set (labels df) \<and> df' = concat (map (named df) ls)"
proof (cases "filter (\<lambda>l. l \<notin> set (labels df)) ls")
  case Nil
  then have "set ls \<subseteq> set (labels df)" by (auto simp: filter_empty_conv)
  with Nil show ?thesis by (auto simp: getitems_def)
next
  case (Cons l ls')
  then have "l \<in> set (filter (\<lambda>l. l \<notin> set (labels df)) ls)" by simp
  then have "\<not> set ls \<subseteq> set (labels df)" by auto
  with Cons show ?thesis by (simp add: getitems_def)
qed

lemma setitem_label: "l \<in> set (labels (setitem df l cs))"
  by (force simp: setitem_def labels_def)

lemma setitem_column: "(l, cs') \<in> set (setitem df l cs) \<Longrightarrow> cs' = cs"
  by (force simp: setitem_def labels_def split: if_splits)

lemma setitem_other:
  "l' \<noteq> l \<Longrightarrow> (l', cs') \<in> set (setitem df l cs) \<longleftrightarrow> (l', cs') \<in> set df"
  by (force simp: setitem_def labels_def image_iff split: if_splits)

lemma labels_setitem:
  "labels (setitem df l cs) = (if l \<in> set (labels df) then labels df else labels df @ [l])"
  by (auto simp: setitem_def labels_def)

lemma setitem_absent:
  "l \<notin> set (labels df) \<Longrightarrow> setitem ((l, cs0) # df) l cs = (l, cs) # df"
proof -
  assume "l \<notin> set (labels df)"
  then have "map (\<lambda>(l', cs'). (l', if l' = l then cs else cs')) df = df"
    by (induction df) (auto simp: labels_def)
  then show ?thesis by (simp add: setitem_def labels_def)
qed

text \<open>The labels after the renaming of line 254.\<close>

lemma canonical_eq:
  "canonical l =
     (if l = ''INTERVALSTARTTIME_GMT'' then ''Time''
      else if l = ''NODE'' then ''Node''
      else if l = ''MCE'' then ''Energy''
      else if l = ''MCC'' then ''Congestion''
      else if l = ''MCL'' then ''Loss''
      else l)"
  by (simp add: canonical_def canonical_names_def)

lemma rename_canonical_names:
  "rename canonical_names df = map (\<lambda>(l, cs). (canonical l, cs)) df"
  by (simp add: rename_def canonical_def)

lemma filter_map_none:
  "\<forall>c \<in> set xs. f c \<noteq> x \<Longrightarrow> filter (\<lambda>l. l = x) (map f xs) = []"
  by (induction xs) auto

lemma filter_map_unique:
  assumes "distinct xs" "c \<in> set xs" "\<forall>c' \<in> set xs. f c' = f c \<longrightarrow> c' = c"
  shows "filter (\<lambda>l. l = f c) (map f xs) = [f c]"
  using assms
proof (induction xs)
  case Nil
  then show ?case by simp
next
  case (Cons a xs)
  show ?case
  proof (cases "a = c")
    case True
    from Cons.prems(1) True have "c \<notin> set xs" by simp
    with Cons.prems(3) have "\<forall>c' \<in> set xs. f c' \<noteq> f c" by auto
    then have "filter (\<lambda>l. l = f c) (map f xs) = []" by (rule filter_map_none)
    then show ?thesis unfolding True by simp
  next
    case False
    from Cons.prems(3) False have ne: "f a \<noteq> f c" by auto
    from Cons.prems(2) False have 2: "c \<in> set xs" by simp
    from Cons.prems(1) have 1: "distinct xs" by simp
    from Cons.prems(3) have 3: "\<forall>c' \<in> set xs. f c' = f c \<longrightarrow> c' = c" by simp
    have "filter (\<lambda>l. l = f c) (map f xs) = [f c]" by (rule Cons.IH [OF 1 2 3])
    with ne show ?thesis by simp
  qed
qed

lemma map_of_named: "map_of (named df l) l' = (if l' = l then map_of df l else None)"
  by (induction df) (auto simp: named_def)

lemma map_of_concat_named:
  "map_of (concat (map (named df) ls)) l = (if l \<in> set ls then map_of df l else None)"
  by (induction ls) (auto simp: map_add_def map_of_named split: option.splits)

lemma map_of_overwrite_other:
  "l' \<noteq> l \<Longrightarrow>
     map_of (map (\<lambda>(a, cs'). (a, if a = l then cs else cs')) df) l' = map_of df l'"
  by (induction df) auto

lemma map_of_overwrite_same:
  "map_of (map (\<lambda>(a, cs'). (a, if a = l then cs else cs')) df) l
     = (if l \<in> fst ` set df then Some cs else None)"
  by (induction df) auto

lemma map_of_setitem:
  "map_of (setitem df l cs) l' = (if l' = l then Some cs else map_of df l')"
proof (cases "l \<in> set (labels df)")
  case True
  then show ?thesis
    by (simp add: setitem_def labels_def map_of_overwrite_other map_of_overwrite_same)
next
  case False
  then have "map_of df l = None" by (simp add: labels_def map_of_eq_None_iff)
  with False show ?thesis by (auto simp: setitem_def map_add_def split: option.splits)
qed

lemma filter_overwrite_other:
  "l' \<noteq> l \<Longrightarrow>
     filter (\<lambda>(a, cs'). a = l') (map (\<lambda>(a, cs'). (a, if a = l then cs else cs')) df)
       = filter (\<lambda>(a, cs'). a = l') df"
  by (induction df) auto

lemma named_setitem_other: "l' \<noteq> l \<Longrightarrow> named (setitem df l cs) l' = named df l'"
  by (simp add: setitem_def named_def filter_overwrite_other)

lemma named_Cons:
  "named ((l', cs) # df) l = (if l' = l then (l', cs) # named df l else named df l)"
  by (simp add: named_def)

text \<open>The columns of the pivot, each with its label.\<close>

lemma zip_columns_cells:
  "zip (columns (pivot_table promote rows)) (cells (pivot_table promote rows))
     = map (\<lambda>c. (c, map (\<lambda>i. case agg_first (group rows (i, c)) of
                                 None \<Rightarrow> NaN
                               | Some v \<Rightarrow> Num (if has_missing_cell rows then promote v else v))
                        (index (pivot_table promote rows))))
         (columns (pivot_table promote rows))"
  by (subst cells_pivot_table) (simp add: zip_map2 zip_same_conv_map)

lemma length_cells: "length (cells (pivot_table promote rows)) = length (columns (pivot_table promote rows))"
  by (simp add: cells_pivot_table)

lemma those_cell_text: "those (map cell_text (map (Str \<circ> f) xs)) = Some (map f xs)"
  by (induction xs) simp_all

lemma those_cell_text_comp: "those (map (cell_text \<circ> (Str \<circ> f)) xs) = Some (map f xs)"
  by (induction xs) simp_all

subsection \<open>The frame before the selection of the output columns\<close>

lemma labels_renamed_columns:
  "labels (renamed_columns (pivot_table promote rows))
     = map canonical (columns (pivot_table promote rows))"
  by (simp add: renamed_columns_def zip_columns_cells labels_def comp_def)

lemma renamed_column_length:
  assumes "(l, cs) \<in> set (renamed_columns (pivot_table promote rows))"
  shows "length cs = length (index (pivot_table promote rows))"
  using assms by (auto simp: renamed_columns_def zip_columns_cells)

lemma rename_reset_index:
  "rename canonical_names
     ((''INTERVALSTARTTIME_GMT'', ts) # (''NODE'', ns) # zip (columns p) (cells p))
     = (''Time'', ts) # (''Node'', ns) # renamed_columns p"
  by (simp add: rename_canonical_names canonical_eq renamed_columns_def)

text \<open>
  A call of \<open>lmp_frame\<close> that returns: no type is named after an index level or is called
  Time, the index is not empty, its time strings are read as instants, and the frame is
  the selection of the seven output columns from the wide frame.
\<close>

lemma lmp_frame_Inr:
  assumes "lmp_frame to_datetime promote market rows = Inr df"
  shows "\<exists>instant.
           ''INTERVALSTARTTIME_GMT'' \<notin> set (columns (pivot_table promote rows))
         \<and> ''NODE'' \<notin> set (columns (pivot_table promote rows))
         \<and> ''Time'' \<notin> canonical ` set (columns (pivot_table promote rows))
         \<and> index (pivot_table promote rows) \<noteq> []
         \<and> to_datetime (map fst (index (pivot_table promote rows))) = Inr instant
         \<and> set output_columns
               \<subseteq> set (labels (wide_frame (pivot_table promote rows) instant market))
         \<and> df = concat (map (named (wide_frame (pivot_table promote rows) instant market))
                          output_columns)"
proof -
  let ?p = "pivot_table promote rows"
  let ?rest = "renamed_columns ?p"
  let ?nodes = "(''Node'', map (Node_id \<circ> snd) (index ?p))"
  let ?df1 = "(''Time'', map (Str \<circ> fst) (index ?p)) # ?nodes # ?rest"
  from assms have lv: "''INTERVALSTARTTIME_GMT'' \<notin> set (columns ?p)"
    "''NODE'' \<notin> set (columns ?p)"
    by (auto simp: lmp_frame_def reset_index_def split: if_splits)
  then have r: "reset_index ?p
      = Inr ((''INTERVALSTARTTIME_GMT'', map (Str \<circ> fst) (index ?p))
             # (''NODE'', map (Node_id \<circ> snd) (index ?p))
             # zip (columns ?p) (cells ?p))"
    by (simp add: reset_index_def)
  have step: "lmp_frame to_datetime promote market rows
      = (case time_column to_datetime ?df1 of
           Inl e \<Rightarrow> Inl e
         | Inr ts \<Rightarrow>
             getitems (setitem (setitem ?df1 ''Time'' ts) ''Market''
                         (replicate (nrows (setitem ?df1 ''Time'' ts)) (Mkt market)))
               output_columns)"
    unfolding lmp_frame_def r by (simp only: sum.case Let_def rename_reset_index)
  have nt: "named ?df1 ''Time'' = (''Time'', map (Str \<circ> fst) (index ?p)) # named ?rest ''Time''"
    by (simp add: named_Cons)
  show ?thesis
  proof (cases "time_column to_datetime ?df1")
    case (Inl e)
    with assms step show ?thesis by simp
  next
    case (Inr ts)
    with assms step have g: "getitems (setitem (setitem ?df1 ''Time'' ts) ''Market''
                        (replicate (nrows (setitem ?df1 ''Time'' ts)) (Mkt market)))
              output_columns = Inr df"
      by simp
    from Inr have single: "named ?rest ''Time'' = []"
      unfolding time_column_def nt by (cases "named ?rest ''Time''") simp_all
    then have no_time: "''Time'' \<notin> set (labels ?rest)" by (simp add: named_eq_Nil)
    then have no_time': "''Time'' \<notin> canonical ` set (columns ?p)"
      by (simp add: labels_renamed_columns)
    from Inr have tc: "(if map fst (index ?p) = [] then Inl (TypeError ''tz_convert'')
          else (case to_datetime (map fst (index ?p)) of
                  Inl e \<Rightarrow> Inl e
                | Inr instant \<Rightarrow>
                    Inr (map (\<lambda>s. Timestamp (tz_convert (instant s) default_timezone))
                           (map fst (index ?p))))) = Inr ts"
      unfolding time_column_def nt single by (simp add: those_cell_text_comp)
    then have ne: "map fst (index ?p) \<noteq> []" by (auto split: if_splits)
    with tc obtain instant where td: "to_datetime (map fst (index ?p)) = Inr instant"
      and ts: "ts = map (\<lambda>s. Timestamp (tz_convert (instant s) default_timezone))
                      (map fst (index ?p))"
      by (cases "to_datetime (map fst (index ?p))") auto
    from ts have ts': "ts = map (Timestamp \<circ> instant \<circ> fst) (index ?p)"
      by (simp add: tz_convert_def comp_def)
    from no_time have "''Time'' \<notin> set (labels (?nodes # ?rest))" by (simp add: labels_def)
    then have s1: "setitem ?df1 ''Time'' ts = (''Time'', ts) # ?nodes # ?rest"
      by (rule setitem_absent)
    have n: "nrows (setitem ?df1 ''Time'' ts) = length (index ?p)"
      unfolding s1 by (simp add: nrows_def ts')
    have w: "setitem (setitem ?df1 ''Time'' ts) ''Market''
               (replicate (nrows (setitem ?df1 ''Time'' ts)) (Mkt market))
             = wide_frame ?p instant market"
      by (simp only: wide_frame_def ts' [symmetric] n [unfolded s1] s1)
    from g have "set output_columns \<subseteq> set (labels (wide_frame ?p instant market))"
      "df = concat (map (named (wide_frame ?p instant market)) output_columns)"
      unfolding w by (simp_all add: getitems_Inr)
    with lv no_time' ne td show ?thesis by auto
  qed
qed

text \<open>The wide frame of a pivot: its key columns, its Market column, its labels.\<close>

lemma wide_frame_Time:
  "map_of (wide_frame p instant market) ''Time''
     = Some (map (Timestamp \<circ> instant \<circ> fst) (index p))"
  by (simp add: wide_frame_def map_of_setitem)

lemma wide_frame_Node:
  "map_of (wide_frame p instant market) ''Node'' = Some (map (Node_id \<circ> snd) (index p))"
  by (simp add: wide_frame_def map_of_setitem)

lemma wide_frame_Market:
  "map_of (wide_frame p instant market) ''Market''
     = Some (replicate (length (index p)) (Mkt market))"
  by (simp add: wide_frame_def map_of_setitem)

lemma wide_frame_Market_columns:
  "(''Market'', cs) \<in> set (wide_frame p instant market)
     \<Longrightarrow> cs = replicate (length (index p)) (Mkt market)"
  unfolding wide_frame_def by (rule setitem_column)

lemma wide_frame_named_Time:
  assumes "''Time'' \<notin> canonical ` set (columns (pivot_table promote rows))"
  shows "named (wide_frame (pivot_table promote rows) instant market) ''Time''
           = [(''Time'', map (Timestamp \<circ> instant \<circ> fst) (index (pivot_table promote rows)))]"
proof -
  let ?p = "pivot_table promote rows"
  from assms have "''Time'' \<notin> set (labels (renamed_columns ?p))"
    by (simp add: labels_renamed_columns)
  then have "named (renamed_columns ?p) ''Time'' = []" by (simp add: named_eq_Nil)
  then show ?thesis
    by (simp add: wide_frame_def named_setitem_other named_Cons)
qed

lemma labels_wide_frame:
  "labels (wide_frame (pivot_table promote rows) instant market)
     = ''Time'' # ''Node'' # map canonical (columns (pivot_table promote rows))
       @ (if ''Market'' \<in> set (columns (pivot_table promote rows)) then [] else [''Market''])"
proof -
  let ?p = "pivot_table promote rows"
  have m: "''Market'' \<in> canonical ` set (columns ?p) \<longleftrightarrow> ''Market'' \<in> set (columns ?p)"
    by (auto simp: canonical_eq image_iff split: if_splits)
  have l: "labels ((''Time'', ts) # (''Node'', ns) # renamed_columns ?p)
             = ''Time'' # ''Node'' # map canonical (columns ?p)" for ts ns
    using labels_renamed_columns [of promote rows] by (simp add: labels_def)
  show ?thesis
    unfolding wide_frame_def labels_setitem l using m by simp
qed

lemma wide_frame_column_length:
  assumes "(l, cs) \<in> set (wide_frame (pivot_table promote rows) instant market)"
  shows "length cs = length (index (pivot_table promote rows))"
proof (cases "l = ''Market''")
  case True
  with assms show ?thesis by (auto dest: wide_frame_Market_columns)
next
  case False
  with assms have "(l, cs) \<in> set ((''Time'', map (Timestamp \<circ> instant \<circ> fst)
                                            (index (pivot_table promote rows)))
                     # (''Node'', map (Node_id \<circ> snd) (index (pivot_table promote rows)))
                     # renamed_columns (pivot_table promote rows))"
    by (simp add: wide_frame_def setitem_other)
  then show ?thesis by (auto dest: renamed_column_length)
qed

subsection \<open>First value of a group\<close>

text \<open>
  Claim C6, as stated, fails. Two rows have the same key; the first has no price (an
  empty cell, NaN), the second has the price 5. The pivot does not retain the first row's
  value: the cell holds 5, the value of the later duplicate.
\<close>

theorem first_row_not_retained_counterexample:
  "group [(Some ''2023-01-01T08:00:00-00:00'', Some ''NODE_A'', Some ''LMP'', None),
          (Some ''2023-01-01T08:00:00-00:00'', Some ''NODE_A'', Some ''LMP'', Some (5 :: int))]
     ((''2023-01-01T08:00:00-00:00'', ''NODE_A''), ''LMP'') = [None, Some 5]
   \<and> cell_at
       (pivot_table float64_of_int64
          [(Some ''2023-01-01T08:00:00-00:00'', Some ''NODE_A'', Some ''LMP'', None),
           (Some ''2023-01-01T08:00:00-00:00'', Some ''NODE_A'', Some ''LMP'', Some (5 :: int))])
       (''2023-01-01T08:00:00-00:00'', ''NODE_A'') ''LMP'' = Some (Num 5)"
  by code_simp

text \<open>
  Claim C6, amended. Among the rows with one (time, node, type) key, the first row whose
  value is not missing gives the cell: the rows before it that have the key have no value,
  and every later row with the key is discarded, whatever its value. The cell holds the
  value as the price column of the wide table holds it: unchanged when the table has no
  missing cell, converted to the type that holds missing values when it has one (an int64
  price becomes the nearest float64).
\<close>

theorem first_present_value_wins:
  assumes "rows = pre @ (Some t, Some n, Some c, Some v) # post"
    and "\<forall>v'. (Some t, Some n, Some c, Some v') \<notin> set pre"
  shows "cell_at (pivot_table promote rows) (t, n) c
           = Some (Num (if has_missing_cell rows then promote v else v))"
proof -
  have "\<forall>x \<in> set (group pre ((t, n), c)). x = None"
  proof
    fix x assume "x \<in> set (group pre ((t, n), c))"
    then have "(Some t, Some n, Some c, x) \<in> set pre"
      by (simp add: set_group in_keyed_rows)
    with assms(2) show "x = None" by (cases x) auto
  qed
  then have "agg_first (group rows ((t, n), c)) = Some v"
    unfolding assms(1) group_append
    by (simp add: agg_first_skips group_Cons)
  then show ?thesis by (rule cell_at_first)
qed

theorem first_present_value_wins_witness:
  "has_missing_cell
     ([(Some ''2023-01-01T08:00:00-00:00'', Some ''NODE_B'', Some ''MCE'', Some (1 :: int))]
      @ (Some ''2023-01-01T08:00:00-00:00'', Some ''NODE_A'', Some ''LMP'', Some 9007199254740993)
      # [(Some ''2023-01-01T08:00:00-00:00'', Some ''NODE_A'', Some ''LMP'', Some 7)])
   \<and> cell_at
       (pivot_table float64_of_int64
          ([(Some ''2023-01-01T08:00:00-00:00'', Some ''NODE_B'', Some ''MCE'', Some (1 :: int))]
           @ (Some ''2023-01-01T08:00:00-00:00'', Some ''NODE_A'', Some ''LMP'',
              Some 9007199254740993)
           # [(Some ''2023-01-01T08:00:00-00:00'', Some ''NODE_A'', Some ''LMP'', Some 7)]))
       (''2023-01-01T08:00:00-00:00'', ''NODE_A'') ''LMP'' = Some (Num 9007199254740992)"
proof -
  have m: "has_missing_cell
     ([(Some ''2023-01-01T08:00:00-00:00'', Some ''NODE_B'', Some ''MCE'', Some (1 :: int))]
      @ (Some ''2023-01-01T08:00:00-00:00'', Some ''NODE_A'', Some ''LMP'', Some 9007199254740993)
      # [(Some ''2023-01-01T08:00:00-00:00'', Some ''NODE_A'', Some ''LMP'', Some 7)])"
    by code_simp
  have f: "float64_of_int64 9007199254740993 = 9007199254740992" by code_simp
  have "cell_at
       (pivot_table float64_of_int64
          ([(Some ''2023-01-01T08:00:00-00:00'', Some ''NODE_B'', Some ''MCE'', Some (1 :: int))]
           @ (Some ''2023-01-01T08:00:00-00:00'', Some ''NODE_A'', Some ''LMP'',
              Some 9007199254740993)
           # [(Some ''2023-01-01T08:00:00-00:00'', Some ''NODE_A'', Some ''LMP'', Some 7)]))
       (''2023-01-01T08:00:00-00:00'', ''NODE_A'') ''LMP''
       = Some (Num (if has_missing_cell
     ([(Some ''2023-01-01T08:00:00-00:00'', Some ''NODE_B'', Some ''MCE'', Some (1 :: int))]
      @ (Some ''2023-01-01T08:00:00-00:00'', Some ''NODE_A'', Some ''LMP'', Some 9007199254740993)
      # [(Some ''2023-01-01T08:00:00-00:00'', Some ''NODE_A'', Some ''LMP'', Some 7)])
           then float64_of_int64 9007199254740993 else 9007199254740993))"
    by (rule first_present_value_wins [where post =
          "[(Some ''2023-01-01T08:00:00-00:00'', Some ''NODE_A'', Some ''LMP'', Some 7)]"
          and pre = "[(Some ''2023-01-01T08:00:00-00:00'', Some ''NODE_B'', Some ''MCE'',
                       Some 1)]"])
       simp_all
  with m f show ?thesis by (simp only: if_True simp_thms)
qed

subsection \<open>Tables without duplicate keys\<close>

lemma group_values_equal:
  assumes "no_duplicate_keys rows" "x \<in> set (group rows k)" "y \<in> set (group rows k)"
  shows "x = y"
  using assms eq_key_imp_eq_value [of "List.map_filter keyed rows" k x y]
  by (simp add: no_duplicate_keys_def set_group)

lemma unique_key_first:
  assumes "no_duplicate_keys rows" "(Some t, Some n, Some c, Some v) \<in> set rows"
  shows "agg_first (group rows ((t, n), c)) = Some v"
proof -
  from assms(2) have "Some v \<in> set (group rows ((t, n), c))"
    by (simp add: set_group in_keyed_rows)
  moreover have "\<forall>x \<in> set (group rows ((t, n), c)). \<forall>y \<in> set (group rows ((t, n), c)). x = y"
    using group_values_equal [OF assms(1)] by blast
  ultimately show ?thesis by (rule agg_first_unique [rotated])
qed

lemma prices_exactD:
  "prices_exact promote rows \<Longrightarrow> (t, n, c, Some v) \<in> set rows \<Longrightarrow> promote v = v"
  by (force simp: prices_exact_def list_all_iff)

text \<open>
  Claim C7, as stated, fails. No two rows share a key; the table has a row for LMP at
  one node and a row for MCE at another, so the wide table has missing cells and its
  prices become float64. The int64 price 9007199254740993 comes out as 9007199254740992:
  the cell does not equal the input value.
\<close>

theorem unique_keys_price_rounded_counterexample:
  "no_duplicate_keys
     [(Some ''2023-01-01T08:00:00-00:00'', Some ''NODE_A'', Some ''LMP'',
       Some (9007199254740993 :: int)),
      (Some ''2023-01-01T08:00:00-00:00'', Some ''NODE_B'', Some ''MCE'', Some 1)]
   \<and> cell_at
       (pivot_table float64_of_int64
          [(Some ''2023-01-01T08:00:00-00:00'', Some ''NODE_A'', Some ''LMP'',
            Some (9007199254740993 :: int)),
           (Some ''2023-01-01T08:00:00-00:00'', Some ''NODE_B'', Some ''MCE'', Some 1)])
       (''2023-01-01T08:00:00-00:00'', ''NODE_A'') ''LMP'' = Some (Num 9007199254740992)"
  by code_simp

text \<open>
  Claim C7, amended. When no two rows share a (time, node, type) key, and either the wide
  table has no missing cell or every price is one the conversion to the type with missing
  values leaves as it is (every float64 price, every int64 price that float64 holds
  exactly), the pivot loses nothing: every price of a row with a complete key is the cell
  at its key, every price in a cell is the price of the input row with that key, and a
  cell is empty only where the input has no price. The rows that lack a time, a node or
  a type have no key and are left out of the table.
\<close>

theorem pivot_of_unique_keys_loses_nothing:
  assumes "no_duplicate_keys rows"
    and "has_missing_cell rows \<longrightarrow> prices_exact promote rows"
  shows "(\<forall>t n c v. (Some t, Some n, Some c, Some v) \<in> set rows
            \<longrightarrow> cell_at (pivot_table promote rows) (t, n) c = Some (Num v))
       \<and> (\<forall>t n c v. cell_at (pivot_table promote rows) (t, n) c = Some (Num v)
            \<longrightarrow> (Some t, Some n, Some c, Some v) \<in> set rows)
       \<and> (\<forall>t n c. cell_at (pivot_table promote rows) (t, n) c = Some NaN
            \<longrightarrow> (\<forall>v. (Some t, Some n, Some c, Some v) \<notin> set rows))"
proof (intro conjI allI impI)
  fix t n c v
  assume row: "(Some t, Some n, Some c, Some v) \<in> set rows"
  from unique_key_first [OF assms(1) row]
  have "cell_at (pivot_table promote rows) (t, n) c
          = Some (Num (if has_missing_cell rows then promote v else v))"
    by (rule cell_at_first)
  moreover have "has_missing_cell rows \<Longrightarrow> promote v = v"
    using assms(2) row by (blast dest: prices_exactD)
  ultimately show "cell_at (pivot_table promote rows) (t, n) c = Some (Num v)"
    by (cases "has_missing_cell rows") simp_all
next
  fix t n c w
  assume "cell_at (pivot_table promote rows) (t, n) c = Some (Num w)"
  then obtain v where first: "agg_first (group rows ((t, n), c)) = Some v"
    and w: "w = (if has_missing_cell rows then promote v else v)"
    by (auto simp: cell_at_Num)
  from first have "Some v \<in> set (group rows ((t, n), c))" by (rule agg_first_in_set)
  then have row: "(Some t, Some n, Some c, Some v) \<in> set rows"
    by (simp add: set_group in_keyed_rows)
  have "has_missing_cell rows \<Longrightarrow> promote v = v"
    using assms(2) row by (blast dest: prices_exactD)
  with w have "w = v" by (cases "has_missing_cell rows") simp_all
  with row show "(Some t, Some n, Some c, Some w) \<in> set rows" by simp
next
  fix t n c v
  assume "cell_at (pivot_table promote rows) (t, n) c = Some NaN"
  then have "agg_first (group rows ((t, n), c)) = None" by (rule cell_at_NaN)
  then have "Some v \<notin> set (group rows ((t, n), c))"
    by (auto simp: agg_first_eq_None)
  then show "(Some t, Some n, Some c, Some v) \<notin> set rows"
    by (simp add: set_group in_keyed_rows)
qed

theorem pivot_of_unique_keys_loses_nothing_witness:
  "no_duplicate_keys
     [(Some ''2023-01-01T08:00:00-00:00'', Some ''NODE_A'', Some ''LMP'',
       Some (9007199254740993 :: int)),
      (Some ''2023-01-01T08:00:00-00:00'', Some ''NODE_A'', Some ''MCE'', Some 20),
      (Some ''2023-01-01T08:00:00-00:00'', Some ''NODE_B'', Some ''LMP'', Some 31),
      (Some ''2023-01-01T08:00:00-00:00'', Some ''NODE_B'', Some ''MCE'', Some 5)]
   \<and> \<not> has_missing_cell
     [(Some ''2023-01-01T08:00:00-00:00'', Some ''NODE_A'', Some ''LMP'',
       Some (9007199254740993 :: int)),
      (Some ''2023-01-01T08:00:00-00:00'', Some ''NODE_A'', Some ''MCE'', Some 20),
      (Some ''2023-01-01T08:00:00-00:00'', Some ''NODE_B'', Some ''LMP'', Some 31),
      (Some ''2023-01-01T08:00:00-00:00'', Some ''NODE_B'', Some ''MCE'', Some 5)]
   \<and> cell_at
       (pivot_table float64_of_int64
          [(Some ''2023-01-01T08:00:00-00:00'', Some ''NODE_A'', Some ''LMP'',
            Some (9007199254740993 :: int)),
           (Some ''2023-01-01T08:00:00-00:00'', Some ''NODE_A'', Some ''MCE'', Some 20),
           (Some ''2023-01-01T08:00:00-00:00'', Some ''NODE_B'', Some ''LMP'', Some 31),
           (Some ''2023-01-01T08:00:00-00:00'', Some ''NODE_B'', Some ''MCE'', Some 5)])
       (''2023-01-01T08:00:00-00:00'', ''NODE_A'') ''LMP'' = Some (Num 9007199254740993)"
proof -
  have h: "no_duplicate_keys
     [(Some ''2023-01-01T08:00:00-00:00'', Some ''NODE_A'', Some ''LMP'',
       Some (9007199254740993 :: int)),
      (Some ''2023-01-01T08:00:00-00:00'', Some ''NODE_A'', Some ''MCE'', Some 20),
      (Some ''2023-01-01T08:00:00-00:00'', Some ''NODE_B'', Some ''LMP'', Some 31),
      (Some ''2023-01-01T08:00:00-00:00'', Some ''NODE_B'', Some ''MCE'', Some 5)]"
    by (simp add: no_duplicate_keys_def)
  have m: "\<not> has_missing_cell
     [(Some ''2023-01-01T08:00:00-00:00'', Some ''NODE_A'', Some ''LMP'',
       Some (9007199254740993 :: int)),
      (Some ''2023-01-01T08:00:00-00:00'', Some ''NODE_A'', Some ''MCE'', Some 20),
      (Some ''2023-01-01T08:00:00-00:00'', Some ''NODE_B'', Some ''LMP'', Some 31),
      (Some ''2023-01-01T08:00:00-00:00'', Some ''NODE_B'', Some ''MCE'', Some 5)]"
    by code_simp
  from pivot_of_unique_keys_loses_nothing [where promote = float64_of_int64, OF h] h m
  show ?thesis by simp
qed

end
